theory Spec2Isabelle
  imports Main
begin

section \<open>SLADE program database: connection contexts (General/Database.cpp)\<close>

text \<open>
  A shallow embedding of \<^verbatim>\<open>src/General/Database.cpp\<close>: the \<^verbatim>\<open>database::Context\<close>
  class (two connections and a cache of prepared statements), the part of
  \<^verbatim>\<open>database::Transaction\<close> defined there, and the registry of per-thread contexts
  behind \<^verbatim>\<open>database::global()\<close>.

  Mutation is explicit state passing. A C++ exception is the \<open>Inl\<close> branch of a sum;
  a method that can both raise and leave the object changed returns the outcome
  together with the object as the raise leaves it. Dereferencing a null
  \<^verbatim>\<open>unique_ptr\<close> or a pointer to a destroyed object is undefined behaviour in C++;
  the model makes it a fault of its own, so that the preconditions of the code
  are visible.
\<close>

subsection \<open>The SQLite engine, as the code sees it\<close>

type_synonym thread_id = nat

datatype fault =
    Exception string        \<comment> \<open>\<^verbatim>\<open>SQLite::Exception\<close> / \<^verbatim>\<open>std::exception\<close>, with \<^verbatim>\<open>what()\<close>\<close>
  | NullDereference         \<comment> \<open>\<^verbatim>\<open>->\<close> or \<^verbatim>\<open>*\<close> on a null pointer\<close>
  | DanglingDereference     \<comment> \<open>\<^verbatim>\<open>->\<close> on a pointer to a destroyed \<^verbatim>\<open>Context\<close>\<close>

datatype open_mode = OPEN_READONLY | OPEN_READWRITE

datatype log_entry = LogWarning string | LogError string

text \<open>
  SQLiteCpp and sqlite3 are not part of the repository. Their behaviour is a
  parameter of every definition below: \<open>'db\<close> is the engine's state of one
  connection.
  \<^item> \<open>eng_open\<close>: the constructor \<^verbatim>\<open>SQLite::Database(path, flags)\<close>, which raises
    when the file cannot be opened;
  \<^item> \<open>eng_close\<close>: releasing a connection; \<open>Some what\<close> when that raises;
  \<^item> \<open>eng_exec\<close>: \<^verbatim>\<open>SQLite::Database::exec\<close>, the number of rows changed or an
    exception, and the connection afterwards;
  \<^item> \<open>eng_execAndGet\<close>: \<^verbatim>\<open>execAndGet(query).getInt()\<close>, the first column of the
    first row of a query, as an integer;
  \<^item> \<open>eng_prepare\<close>: the constructor \<^verbatim>\<open>SQLite::Statement(db, sql)\<close>; \<open>Some what\<close>
    when the text does not compile;
  \<^item> \<open>eng_get_autocommit\<close>: \<^verbatim>\<open>sqlite3_get_autocommit\<close>.
\<close>

record 'db engine =
  eng_open :: "string \<Rightarrow> open_mode \<Rightarrow> fault + 'db"
  eng_close :: "'db \<Rightarrow> string option"
  eng_exec :: "'db \<Rightarrow> string \<Rightarrow> (fault + int) \<times> 'db"
  eng_execAndGet :: "'db \<Rightarrow> string \<Rightarrow> fault + int"
  eng_prepare :: "'db \<Rightarrow> string \<Rightarrow> string option"
  eng_get_autocommit :: "'db \<Rightarrow> int"

text \<open>
  A \<^verbatim>\<open>SQLite::Database\<close> object: the engine's connection, and the SQL texts that
  were sent through it with \<^verbatim>\<open>exec\<close>, oldest first (a ghost field: the code keeps
  no such list, the model records it to say which statements were issued).
  The database file is not modelled: \<open>db_handle\<close> is what this one connection sees
  of it, and what is written through one connection does not show through
  another. The theorems below speak of one connection at a time.
\<close>

record 'db Database =
  db_handle :: 'db
  db_issued :: "string list"

definition Database_new :: "'db engine \<Rightarrow> string \<Rightarrow> open_mode \<Rightarrow> fault + 'db Database" where
  "Database_new eng path mode =
     (case eng_open eng path mode of
        Inl e \<Rightarrow> Inl e
      | Inr h \<Rightarrow> Inr \<lparr>db_handle = h, db_issued = []\<rparr>)"

definition Database_exec ::
  "'db engine \<Rightarrow> 'db Database \<Rightarrow> string \<Rightarrow> (fault + int) \<times> 'db Database" where
  "Database_exec eng d query =
     (case eng_exec eng (db_handle d) query of
        (r, h) \<Rightarrow> (r, \<lparr>db_handle = h, db_issued = db_issued d @ [query]\<rparr>))"

text \<open>
  A \<^verbatim>\<open>SQLite::Statement\<close>: its SQL text, the connection it was compiled against
  (\<open>st_writes\<close>: the read+write one), the values bound to its parameters (index
  and value, as text), and whether it has been stepped: \<open>st_has_row\<close> and \<open>st_done\<close>
  are the two flags \<^verbatim>\<open>executeStep\<close> sets. \<^verbatim>\<open>tryReset\<close> clears the two flags, which
  puts the statement back before its first step, and never raises; it calls
  \<^verbatim>\<open>sqlite3_reset\<close>, which leaves the bound values in place.
\<close>

record Statement =
  st_sql :: string
  st_writes :: bool
  st_bindings :: "(nat \<times> string) list"
  st_has_row :: bool
  st_done :: bool

definition Statement_new :: "string \<Rightarrow> bool \<Rightarrow> Statement" where
  "Statement_new sql writes =
     \<lparr>st_sql = sql, st_writes = writes, st_bindings = [], st_has_row = False,
      st_done = False\<rparr>"

definition tryReset :: "Statement \<Rightarrow> Statement" where
  "tryReset st = st\<lparr>st_has_row := False, st_done := False\<rparr>"

definition not_yet_stepped :: "Statement \<Rightarrow> bool" where
  "not_yet_stepped st \<longleftrightarrow> \<not> st_has_row st \<and> \<not> st_done st"

subsection \<open>database::Context\<close>

text \<open>
  The members of \<^verbatim>\<open>Context\<close> (the trailing underscore of the C++ names is
  dropped). A \<^verbatim>\<open>unique_ptr\<close> is \<open>None\<close> when null. \<^verbatim>\<open>cached_queries_\<close> maps an id
  to the \<^verbatim>\<open>unique_ptr<SQLite::Statement>\<close> it owns: the address of the statement
  (what \<^verbatim>\<open>get()\<close> returns) and the statement there.
\<close>

type_synonym stmt_ptr = nat

record 'db Context =
  thread_id :: thread_id
  file_path :: string
  connection_ro :: "'db Database option"
  connection_rw :: "'db Database option"
  cached_queries :: "string \<rightharpoonup> (stmt_ptr \<times> Statement)"

definition isForThisThread :: "'db Context \<Rightarrow> thread_id \<Rightarrow> bool" where
  "isForThisThread c this_thread \<longleftrightarrow> thread_id c = this_thread"

definition close_error :: "string \<Rightarrow> string \<Rightarrow> log_entry" where
  "close_error path what =
     LogError (''Error closing connections for database '' @ path @ '': '' @ what)"

text \<open>
  \<^verbatim>\<open>Context::close\<close>. Assigning \<^verbatim>\<open>nullptr\<close> to a \<^verbatim>\<open>unique_ptr\<close> nulls the pointer
  and then releases the connection; when that raises, the handler logs and
  returns false, with what was done before the raise left done. The third
  component is what the call logs.
\<close>

definition Context_close ::
  "'db engine \<Rightarrow> 'db Context \<Rightarrow> bool \<times> 'db Context \<times> log_entry list" where
  "Context_close eng c =
     (case connection_ro c of
        None \<Rightarrow> (True, c, [])
      | Some ro \<Rightarrow>
          (case eng_close eng (db_handle ro) of
             Some what \<Rightarrow>
               (False, c\<lparr>cached_queries := Map.empty, connection_ro := None\<rparr>,
                [close_error (file_path c) what])
           | None \<Rightarrow>
               (case connection_rw c of
                  None \<Rightarrow>
                    (True, c\<lparr>cached_queries := Map.empty, connection_ro := None,
                              file_path := []\<rparr>, [])
                | Some rw \<Rightarrow>
                    (case eng_close eng (db_handle rw) of
                       Some what \<Rightarrow>
                         (False, c\<lparr>cached_queries := Map.empty, connection_ro := None,
                                    connection_rw := None\<rparr>,
                          [close_error (file_path c) what])
                     | None \<Rightarrow>
                         (True, c\<lparr>cached_queries := Map.empty, connection_ro := None,
                                   connection_rw := None, file_path := []\<rparr>, [])))))"

text \<open>
  \<^verbatim>\<open>Context::open\<close>. The two constructors run one after the other and each result
  is assigned at once, so a raise in the second leaves the first assignment in
  place; the exception leaves \<^verbatim>\<open>open\<close> (there is no handler).
\<close>

definition Context_open ::
  "'db engine \<Rightarrow> 'db Context \<Rightarrow> string \<Rightarrow> (fault + bool) \<times> 'db Context \<times> log_entry list" where
  "Context_open eng c path =
     (case Context_close eng c of
        (closed, c1, lg) \<Rightarrow>
          if \<not> closed then (Inr False, c1, lg)
          else
            (case Database_new eng path OPEN_READONLY of
               Inl e \<Rightarrow> (Inl e, c1\<lparr>file_path := path\<rparr>, lg)
             | Inr ro \<Rightarrow>
                 (case Database_new eng path OPEN_READWRITE of
                    Inl e \<Rightarrow> (Inl e, c1\<lparr>file_path := path, connection_ro := Some ro\<rparr>, lg)
                  | Inr rw \<Rightarrow>
                      (Inr True,
                       c1\<lparr>file_path := path, connection_ro := Some ro,
                          connection_rw := Some rw\<rparr>, lg))))"

text \<open>
  The constructor \<^verbatim>\<open>Context(file_path)\<close>, run on thread \<open>this_thread\<close>. When
  \<^verbatim>\<open>open\<close> raises, so does the constructor, and no object comes to exist.
\<close>

definition Context_init :: "thread_id \<Rightarrow> 'db Context" where
  "Context_init this_thread =
     \<lparr>thread_id = this_thread, file_path = [], connection_ro = None,
      connection_rw = None, cached_queries = Map.empty\<rparr>"

definition Context_new ::
  "'db engine \<Rightarrow> thread_id \<Rightarrow> string \<Rightarrow> (fault + 'db Context) \<times> log_entry list" where
  "Context_new eng this_thread path =
     (if path \<noteq> [] then
        (case Context_open eng (Context_init this_thread) path of
           (Inl e, c, lg) \<Rightarrow> (Inl e, lg)
         | (Inr opened, c, lg) \<Rightarrow> (Inr c, lg))
      else (Inr (Context_init this_thread), []))"

text \<open>
  \<^verbatim>\<open>Context::cachedQuery\<close>: the pointer to the cached statement, reset, or
  \<^verbatim>\<open>nullptr\<close> (\<open>None\<close>).
\<close>

definition Context_cachedQuery ::
  "'db Context \<Rightarrow> string \<Rightarrow> stmt_ptr option \<times> 'db Context" where
  "Context_cachedQuery c ident =
     (case cached_queries c ident of
        Some (p, st) \<Rightarrow>
          (Some p, c\<lparr>cached_queries := (cached_queries c)(ident \<mapsto> (p, tryReset st))\<rparr>)
      | None \<Rightarrow> (None, c))"

text \<open>
  \<^verbatim>\<open>Context::cacheQuery\<close>. \<open>fresh\<close> is the address \<^verbatim>\<open>make_unique\<close> gives the new
  statement: the allocator's choice, so a parameter. Only \<^verbatim>\<open>connection_ro_\<close> is
  tested before either connection is dereferenced.
\<close>

definition Context_cacheQuery ::
  "'db engine \<Rightarrow> stmt_ptr \<Rightarrow> 'db Context \<Rightarrow> string \<Rightarrow> string \<Rightarrow> bool \<Rightarrow>
     (fault + stmt_ptr option) \<times> 'db Context" where
  "Context_cacheQuery eng fresh c ident sql writes =
     (case cached_queries c ident of
        Some (p, st) \<Rightarrow>
          (Inr (Some p), c\<lparr>cached_queries := (cached_queries c)(ident \<mapsto> (p, tryReset st))\<rparr>)
      | None \<Rightarrow>
          (case connection_ro c of
             None \<Rightarrow> (Inr None, c)
           | Some ro \<Rightarrow>
               (case (if writes then connection_rw c else Some ro) of
                  None \<Rightarrow> (Inl NullDereference, c)
                | Some db \<Rightarrow>
                    (case eng_prepare eng (db_handle db) sql of
                       Some what \<Rightarrow> (Inl (Exception what), c)
                     | None \<Rightarrow>
                         (Inr (Some fresh),
                          c\<lparr>cached_queries :=
                               (cached_queries c)(ident \<mapsto> (fresh, Statement_new sql writes))\<rparr>)))))"

text \<open>
  \<^verbatim>\<open>Context::exec\<close> (both overloads have the same body): the engine's row count,
  or 0 when \<^verbatim>\<open>connection_rw_\<close> is null.
\<close>

definition Context_exec ::
  "'db engine \<Rightarrow> 'db Context \<Rightarrow> string \<Rightarrow> (fault + int) \<times> 'db Context" where
  "Context_exec eng c query =
     (case connection_rw c of
        Some rw \<Rightarrow>
          (case Database_exec eng rw query of
             (r, rw') \<Rightarrow> (r, c\<lparr>connection_rw := Some rw'\<rparr>))
      | None \<Rightarrow> (Inr 0, c))"

text \<open>
  \<^verbatim>\<open>fmt::format\<close> of an integer with \<^verbatim>\<open>{}\<close>: decimal digits, a minus sign for a
  negative one. The \<^verbatim>\<open>int64_t\<close> argument is its value (from \<open>- 2 ^ 63\<close> to
  \<open>2 ^ 63 - 1\<close>); nothing is computed with it.
\<close>

fun decimal :: "nat \<Rightarrow> string" where
  "decimal n =
     (if n < 10 then [''0123456789'' ! n]
      else decimal (n div 10) @ [''0123456789'' ! (n mod 10)])"

declare decimal.simps [simp del]

definition format_int :: "int \<Rightarrow> string" where
  "format_int i = (if i < 0 then CHR ''-'' # decimal (nat (- i)) else decimal (nat i))"

definition exists_query :: "string \<Rightarrow> string \<Rightarrow> int \<Rightarrow> string" where
  "exists_query table_name id_col ident =
     ''SELECT EXISTS(SELECT 1 FROM '' @ table_name @ '' WHERE '' @ id_col @ '' = ''
       @ format_int ident @ '')''"

text \<open>
  \<^verbatim>\<open>Context::rowIdExists(table_name, id, id_col)\<close>: \<^verbatim>\<open>connection_ro_\<close> is
  dereferenced without a test.
\<close>

definition Context_rowIdExists ::
  "'db engine \<Rightarrow> 'db Context \<Rightarrow> string \<Rightarrow> int \<Rightarrow> string \<Rightarrow> fault + bool" where
  "Context_rowIdExists eng c table_name ident id_col =
     (case connection_ro c of
        None \<Rightarrow> Inl NullDereference
      | Some ro \<Rightarrow>
          (case eng_execAndGet eng (db_handle ro) (exists_query table_name id_col ident) of
             Inl e \<Rightarrow> Inl e
           | Inr v \<Rightarrow> Inr (v > 0)))"

subsection \<open>database::Transaction\<close>

text \<open>
  A \<^verbatim>\<open>Transaction\<close> holds a plain pointer to a connection that a \<^verbatim>\<open>Context\<close> owns.
  Its functions take what the pointer points to (\<open>None\<close> for a null pointer) and
  return it as they leave it; the caller stores it back.
\<close>

datatype tx_state = INACTIVE | ACTIVE | TERMINATED

record Transaction =
  tx_state :: tx_state

definition database_isTransactionActive ::
  "'db engine \<Rightarrow> 'db Database option \<Rightarrow> fault + bool" where
  "database_isTransactionActive eng connection =
     (case connection of
        None \<Rightarrow> Inl NullDereference
      | Some d \<Rightarrow> Inr (eng_get_autocommit eng (db_handle d) = 0))"

text \<open>
  Modelled from the spec: \<^verbatim>\<open>Transaction::begin()\<close> is defined in Database.h, which
  is not among the sources. Section 4.2: it "issues \<^verbatim>\<open>BEGIN\<close> and transitions to
  \<^verbatim>\<open>ACTIVE\<close>"; a fault of the engine is "surfaced to the immediate caller"
  (section 7).
\<close>

definition Transaction_begin ::
  "'db engine \<Rightarrow> Transaction \<Rightarrow> 'db Database option \<Rightarrow>
     (fault + unit) \<times> Transaction \<times> 'db Database option" where
  "Transaction_begin eng tx connection =
     (case connection of
        None \<Rightarrow> (Inl NullDereference, tx, None)
      | Some d \<Rightarrow>
          (case Database_exec eng d ''BEGIN'' of
             (Inl e, d') \<Rightarrow> (Inl e, tx, Some d')
           | (Inr n, d') \<Rightarrow> (Inr (), tx\<lparr>tx_state := ACTIVE\<rparr>, Some d')))"

text \<open>\<^verbatim>\<open>Transaction::beginIfNoActiveTransaction\<close>, as in Database.cpp.\<close>

definition Transaction_beginIfNoActiveTransaction ::
  "'db engine \<Rightarrow> Transaction \<Rightarrow> 'db Database option \<Rightarrow>
     (fault + unit) \<times> Transaction \<times> 'db Database option" where
  "Transaction_beginIfNoActiveTransaction eng tx connection =
     (case database_isTransactionActive eng connection of
        Inl e \<Rightarrow> (Inl e, tx, connection)
      | Inr active \<Rightarrow>
          if \<not> active then Transaction_begin eng tx connection
          else (Inr (), tx, connection))"

text \<open>
  Modelled from the spec: the constructor \<^verbatim>\<open>Transaction(connection, flag)\<close> is
  defined in Database.h, which is not among the sources. Section 4.2: the guard
  starts \<^verbatim>\<open>INACTIVE\<close> and construction has "begin if none active" semantics: "if
  the bound connection already reports an active transaction, the guard
  transitions straight to a joined-\<^verbatim>\<open>ACTIVE\<close> state without issuing a new begin.
  Otherwise issues \<^verbatim>\<open>BEGIN\<close> and transitions to \<^verbatim>\<open>ACTIVE\<close>". So a guard that was
  constructed is \<^verbatim>\<open>ACTIVE\<close> either way. Section 4.1: \<^verbatim>\<open>beginTransaction\<close> returns
  a guard "already started (see 4.2)". When the constructor raises there is no
  guard.
\<close>

definition Transaction_new ::
  "'db engine \<Rightarrow> 'db Database option \<Rightarrow> bool \<Rightarrow>
     (fault + Transaction) \<times> 'db Database option" where
  "Transaction_new eng connection begin_if_no_active =
     (if begin_if_no_active then
        (case Transaction_beginIfNoActiveTransaction eng \<lparr>tx_state = INACTIVE\<rparr> connection of
           (Inl e, tx, connection') \<Rightarrow> (Inl e, connection')
         | (Inr u, tx, connection') \<Rightarrow> (Inr (tx\<lparr>tx_state := ACTIVE\<rparr>), connection'))
      else (Inr \<lparr>tx_state = INACTIVE\<rparr>, connection))"

text \<open>
  \<^verbatim>\<open>Context::beginTransaction\<close>: \<^verbatim>\<open>get()\<close> of either \<^verbatim>\<open>unique_ptr\<close> goes to the
  constructor with \<^verbatim>\<open>true\<close>; there is no test for a null pointer.
\<close>

definition Context_beginTransaction ::
  "'db engine \<Rightarrow> 'db Context \<Rightarrow> bool \<Rightarrow> (fault + Transaction) \<times> 'db Context" where
  "Context_beginTransaction eng c write =
     (if write then
        (case Transaction_new eng (connection_rw c) True of
           (r, connection') \<Rightarrow> (r, c\<lparr>connection_rw := connection'\<rparr>))
      else
        (case Transaction_new eng (connection_ro c) True of
           (r, connection') \<Rightarrow> (r, c\<lparr>connection_ro := connection'\<rparr>)))"

subsection \<open>The registry of thread contexts and database::global\<close>

text \<open>
  The objects of the program: the live \<^verbatim>\<open>Context\<close> objects by address,
  \<^verbatim>\<open>thread_contexts\<close> (a vector of addresses) and the log. \<^verbatim>\<open>db_global\<close> is the
  context at address \<open>db_global\<close>. The mutex is not modelled: every function here
  is one step.
\<close>

record 'db state =
  contexts :: "nat \<rightharpoonup> 'db Context"
  thread_contexts :: "nat list"
  logged :: "log_entry list"

definition db_global :: nat where
  "db_global = 0"

definition global_warning :: log_entry where
  "global_warning =
     LogWarning ''A non-main thread is requesting the global database connection context''"

text \<open>The range-for loop of \<^verbatim>\<open>database::global\<close>: the first entry for the thread.\<close>

fun find_thread_context ::
  "(nat \<rightharpoonup> 'db Context) \<Rightarrow> thread_id \<Rightarrow> nat list \<Rightarrow> fault + nat option" where
  "find_thread_context heap this_thread [] = Inr None"
| "find_thread_context heap this_thread (p # ps) =
     (case heap p of
        None \<Rightarrow> Inl DanglingDereference
      | Some c \<Rightarrow>
          if isForThisThread c this_thread then Inr (Some p)
          else find_thread_context heap this_thread ps)"

text \<open>
  \<^verbatim>\<open>database::global()\<close>, called on thread \<open>this_thread\<close>; \<open>main_thread\<close> is
  \<^verbatim>\<open>app::mainThreadId()\<close>. It returns a reference: here the address.
\<close>

definition database_global ::
  "thread_id \<Rightarrow> thread_id \<Rightarrow> 'db state \<Rightarrow> (fault + nat) \<times> 'db state" where
  "database_global main_thread this_thread s =
     (if this_thread \<noteq> main_thread then
        (case find_thread_context (contexts s) this_thread (thread_contexts s) of
           Inl e \<Rightarrow> (Inl e, s)
         | Inr (Some p) \<Rightarrow> (Inr p, s)
         | Inr None \<Rightarrow> (Inr db_global, s\<lparr>logged := logged s @ [global_warning]\<rparr>))
      else (Inr db_global, s))"

text \<open>\<^verbatim>\<open>database::registerThreadContext\<close>: \<^verbatim>\<open>push_back\<close> of the address.\<close>

definition database_registerThreadContext :: "nat \<Rightarrow> 'db state \<Rightarrow> 'db state" where
  "database_registerThreadContext context s =
     s\<lparr>thread_contexts := thread_contexts s @ [context]\<rparr>"

text \<open>\<^verbatim>\<open>vector::erase\<close> of the element at one index.\<close>

definition erase_at :: "nat \<Rightarrow> 'a list \<Rightarrow> 'a list" where
  "erase_at i xs = take i xs @ drop (Suc i) xs"

text \<open>
  The loop of \<^verbatim>\<open>database::deregisterThreadContexts\<close>, from index \<open>i\<close> down to 0:
  each entry is dereferenced.
\<close>

function deregister_loop ::
  "(nat \<rightharpoonup> 'db Context) \<Rightarrow> thread_id \<Rightarrow> int \<Rightarrow> nat list \<Rightarrow> fault + nat list" where
  "deregister_loop heap this_thread i xs =
     (if i \<ge> 0 then
        (case heap (xs ! nat i) of
           None \<Rightarrow> Inl DanglingDereference
         | Some c \<Rightarrow>
             deregister_loop heap this_thread (i - 1)
               (if isForThisThread c this_thread then erase_at (nat i) xs else xs))
      else Inr xs)"
  by pat_completeness auto
termination
  by (relation "measure (\<lambda>(heap, this_thread, i, xs). nat (i + 1))") auto

declare deregister_loop.simps [simp del]

definition database_deregisterThreadContexts ::
  "thread_id \<Rightarrow> 'db state \<Rightarrow> (fault + unit) \<times> 'db state" where
  "database_deregisterThreadContexts this_thread s =
     (case deregister_loop (contexts s) this_thread
             (int (length (thread_contexts s)) - 1) (thread_contexts s) of
        Inl e \<Rightarrow> (Inl e, s)
      | Inr xs \<Rightarrow> (Inr (), s\<lparr>thread_contexts := xs\<rparr>))"

text \<open>
  The loop of the destructor \<^verbatim>\<open>~Context\<close>, from index \<open>i\<close> down to 0: the entries
  are compared with \<^verbatim>\<open>this\<close>, not dereferenced.
\<close>

function destructor_loop :: "nat \<Rightarrow> int \<Rightarrow> nat list \<Rightarrow> nat list" where
  "destructor_loop this i xs =
     (if i \<ge> 0 then
        destructor_loop this (i - 1) (if xs ! nat i = this then erase_at (nat i) xs else xs)
      else xs)"
  by pat_completeness auto
termination
  by (relation "measure (\<lambda>(this, i, xs). nat (i + 1))") auto

declare destructor_loop.simps [simp del]

text \<open>
  Destroying the \<^verbatim>\<open>Context\<close> at address \<open>this\<close>: the destructor's body, after which
  the object is no longer live.
\<close>

definition Context_destroy ::
  "'db engine \<Rightarrow> nat \<Rightarrow> 'db state \<Rightarrow> (fault + unit) \<times> 'db state" where
  "Context_destroy eng this s =
     (case contexts s this of
        None \<Rightarrow> (Inl DanglingDereference, s)
      | Some c \<Rightarrow>
          (case Context_close eng c of
             (closed, c', lg) \<Rightarrow>
               (Inr (),
                s\<lparr>contexts := (contexts s)(this := None),
                   thread_contexts :=
                     destructor_loop this (int (length (thread_contexts s)) - 1)
                       (thread_contexts s),
                   logged := logged s @ lg\<rparr>)))"

text \<open>Creating a \<^verbatim>\<open>Context\<close> at the unused address \<open>addr\<close>, on thread \<open>this_thread\<close>.\<close>

definition Context_create ::
  "'db engine \<Rightarrow> nat \<Rightarrow> thread_id \<Rightarrow> string \<Rightarrow> 'db state \<Rightarrow> (fault + unit) \<times> 'db state" where
  "Context_create eng addr this_thread path s =
     (case Context_new eng this_thread path of
        (Inl e, lg) \<Rightarrow> (Inl e, s\<lparr>logged := logged s @ lg\<rparr>)
      | (Inr c, lg) \<Rightarrow>
          (Inr (), s\<lparr>contexts := (contexts s)(addr \<mapsto> c), logged := logged s @ lg\<rparr>))"

subsection \<open>Invariants\<close>

text \<open>Every entry of \<^verbatim>\<open>thread_contexts\<close> points to a live \<^verbatim>\<open>Context\<close>.\<close>

definition registry_live :: "'db state \<Rightarrow> bool" where
  "registry_live s \<longleftrightarrow> (\<forall>p \<in> set (thread_contexts s). contexts s p \<noteq> None)"

text \<open>
  A context without \<^verbatim>\<open>connection_ro_\<close> caches nothing: \<^verbatim>\<open>cacheQuery\<close> adds an entry
  only after testing \<^verbatim>\<open>connection_ro_\<close>, and \<^verbatim>\<open>close\<close> empties the cache before it
  nulls the pointer.
\<close>

definition cache_inv :: "'db Context \<Rightarrow> bool" where
  "cache_inv c \<longleftrightarrow> (connection_ro c = None \<longrightarrow> cached_queries c = Map.empty)"

text \<open>Both connections present, or both absent.\<close>

definition both_or_neither :: "'db Context \<Rightarrow> bool" where
  "both_or_neither c \<longleftrightarrow> (connection_ro c = None) = (connection_rw c = None)"

subsection \<open>What SQLite answers to the query of rowIdExists\<close>

text \<open>
  SQLite is not part of the repository. To say what \<^verbatim>\<open>rowIdExists\<close> finds, this
  is how SQLite reads the one query that function sends, on a database of
  tables with integer columns: a table has its column names and its rows, a row
  gives a value to some of the columns (a column it leaves out is \<^verbatim>\<open>NULL\<close>).
  Names are compared without regard to case.
\<close>

type_synonym sql_row = "(string \<times> int) list"
type_synonym sql_table = "string list \<times> sql_row list"
type_synonym sql_database = "(string \<times> sql_table) list"

definition upper :: "char \<Rightarrow> char" where
  "upper ch =
     (case map_of (zip ''abcdefghijklmnopqrstuvwxyz'' ''ABCDEFGHIJKLMNOPQRSTUVWXYZ'') ch of
        Some u \<Rightarrow> u
      | None \<Rightarrow> ch)"

definition same_name :: "string \<Rightarrow> string \<Rightarrow> bool" where
  "same_name a b \<longleftrightarrow> map upper a = map upper b"

definition lookup_name :: "string \<Rightarrow> (string \<times> 'a) list \<Rightarrow> 'a option" where
  "lookup_name n xs = map_option snd (find (\<lambda>kv. same_name (fst kv) n) xs)"

text \<open>
  A name that can stand in SQL text as it is: a letter or an underscore, then
  letters, digits and underscores, and not a reserved word. The reserved words
  are a parameter (\<open>keywords\<close>, in capitals).
\<close>

definition name_start :: "char \<Rightarrow> bool" where
  "name_start ch \<longleftrightarrow> ch \<in> set ''abcdefghijklmnopqrstuvwxyzABCDEFGHIJKLMNOPQRSTUVWXYZ_''"

definition name_char :: "char \<Rightarrow> bool" where
  "name_char ch \<longleftrightarrow>
     ch \<in> set ''abcdefghijklmnopqrstuvwxyzABCDEFGHIJKLMNOPQRSTUVWXYZ_0123456789''"

definition name_token :: "string \<Rightarrow> bool" where
  "name_token s \<longleftrightarrow>
     (case s of [] \<Rightarrow> False | ch # cs \<Rightarrow> name_start ch \<and> list_all name_char cs)"

definition is_keyword :: "string list \<Rightarrow> string \<Rightarrow> bool" where
  "is_keyword keywords s \<longleftrightarrow> map upper s \<in> set keywords"


text \<open>An integer literal: digits, after a minus sign or not.\<close>

definition digit_of :: "char \<Rightarrow> nat option" where
  "digit_of ch = map_of (zip ''0123456789'' [0..<10]) ch"

fun parse_digits :: "string \<Rightarrow> nat \<Rightarrow> nat option" where
  "parse_digits [] acc = Some acc"
| "parse_digits (ch # cs) acc =
     (case digit_of ch of None \<Rightarrow> None | Some d \<Rightarrow> parse_digits cs (10 * acc + d))"

definition parse_nat :: "string \<Rightarrow> nat option" where
  "parse_nat s = (if s = [] then None else parse_digits s 0)"

definition parse_int :: "string \<Rightarrow> int option" where
  "parse_int s =
     (case s of
        [] \<Rightarrow> None
      | ch # cs \<Rightarrow>
          if ch = CHR ''-'' then map_option (\<lambda>n. - int n) (parse_nat cs)
          else map_option int (parse_nat s))"

text \<open>
  The text \<^verbatim>\<open>SELECT EXISTS(SELECT 1 FROM t WHERE c = v)\<close> taken apart again: the
  three words where the table, the column and the value stand.
\<close>

definition strip_prefix :: "string \<Rightarrow> string \<Rightarrow> string option" where
  "strip_prefix p s = (if take (length p) s = p then Some (drop (length p) s) else None)"

definition parse_exists_query :: "string \<Rightarrow> (string \<times> string \<times> string) option" where
  "parse_exists_query q =
     (case strip_prefix ''SELECT EXISTS(SELECT 1 FROM '' q of
        None \<Rightarrow> None
      | Some r1 \<Rightarrow>
          (case strip_prefix '' WHERE '' (dropWhile (\<lambda>ch. ch \<noteq> CHR '' '') r1) of
             None \<Rightarrow> None
           | Some r2 \<Rightarrow>
               (case strip_prefix '' = '' (dropWhile (\<lambda>ch. ch \<noteq> CHR '' '') r2) of
                  None \<Rightarrow> None
                | Some r3 \<Rightarrow>
                    if dropWhile (\<lambda>ch. ch \<noteq> CHR '')'') r3 = '')''
                    then Some (takeWhile (\<lambda>ch. ch \<noteq> CHR '' '') r1,
                               takeWhile (\<lambda>ch. ch \<noteq> CHR '' '') r2,
                               takeWhile (\<lambda>ch. ch \<noteq> CHR '')'') r3)
                    else None)))"

text \<open>
  The answer, on the database \<open>db\<close>. A reserved word where a name should stand is
  a syntax error; a table or a column that does not exist is an error of its
  own; otherwise the answer is 1 when some row has the value in the column and 0
  when none has. A text that is not of this form, or has anything but a name
  for the table or the column, is refused here: what SQLite makes of such a text
  is not modelled.
\<close>

definition sql_execAndGet :: "string list \<Rightarrow> sql_database \<Rightarrow> string \<Rightarrow> fault + int" where
  "sql_execAndGet keywords db q =
     (case parse_exists_query q of
        None \<Rightarrow> Inl (Exception ''syntax error'')
      | Some (t, c, v) \<Rightarrow>
          if \<not> name_token t \<or> \<not> name_token c then Inl (Exception ''syntax error'')
          else if is_keyword keywords t then Inl (Exception (''syntax error near '' @ t))
          else if is_keyword keywords c then Inl (Exception (''syntax error near '' @ c))
          else
            (case parse_int v of
               None \<Rightarrow> Inl (Exception ''syntax error'')
             | Some i \<Rightarrow>
                 (case lookup_name t db of
                    None \<Rightarrow> Inl (Exception (''no such table: '' @ t))
                  | Some (columns, rows) \<Rightarrow>
                      (case find (same_name c) columns of
                         None \<Rightarrow> Inl (Exception (''no such column: '' @ c))
                       | Some k \<Rightarrow>
                           Inr (if list_ex (\<lambda>r. map_of r k = Some i) rows then 1 else 0)))))"


subsection \<open>A small engine for the examples\<close>

text \<open>
  An engine to run the definitions on. A connection knows whether a transaction
  is open, the tables, and the count that \<^verbatim>\<open>sqlite3_changes\<close> reports: the number
  of rows changed by the most recent \<^verbatim>\<open>INSERT\<close>, \<^verbatim>\<open>UPDATE\<close> or \<^verbatim>\<open>DELETE\<close> on the
  connection. \<^verbatim>\<open>SQLite::Database::exec\<close> runs the statement and returns that count,
  so after a statement that changes no row it returns the count an earlier
  statement left. The engine runs three statements and refuses the others;
  \<^verbatim>\<open>BEGIN\<close> inside a transaction is refused, as SQLite refuses it.
\<close>

record mem_db =
  in_transaction :: bool
  changes :: int
  tables :: sql_database

definition reserved_words :: "string list" where
  "reserved_words =
     [''SELECT'', ''FROM'', ''WHERE'', ''ORDER'', ''GROUP'', ''TABLE'', ''INDEX'', ''EXISTS'',
      ''AND'', ''OR'', ''NOT'', ''NULL'']"

definition delete_rows :: "string \<Rightarrow> string \<Rightarrow> int \<Rightarrow> sql_database \<Rightarrow> sql_database" where
  "delete_rows t k v db =
     map (\<lambda>(name, columns, rows).
            if name = t then (name, columns, filter (\<lambda>r. map_of r k \<noteq> Some v) rows)
            else (name, columns, rows)) db"

definition count_rows :: "string \<Rightarrow> string \<Rightarrow> int \<Rightarrow> sql_database \<Rightarrow> int" where
  "count_rows t k v db =
     (case map_of db t of
        None \<Rightarrow> 0
      | Some (columns, rows) \<Rightarrow> int (length (filter (\<lambda>r. map_of r k = Some v) rows)))"

definition mem_exec :: "mem_db \<Rightarrow> string \<Rightarrow> (fault + int) \<times> mem_db" where
  "mem_exec h query =
     (if query = ''BEGIN'' then
        (if in_transaction h
         then (Inl (Exception ''cannot start a transaction within a transaction''), h)
         else (Inr (changes h), h\<lparr>in_transaction := True\<rparr>))
      else if query = ''DELETE FROM archive_file WHERE id = 42'' then
        (Inr (count_rows ''archive_file'' ''id'' 42 (tables h)),
         h\<lparr>changes := count_rows ''archive_file'' ''id'' 42 (tables h),
           tables := delete_rows ''archive_file'' ''id'' 42 (tables h)\<rparr>)
      else if query = ''SELECT 1'' then (Inr (changes h), h)
      else (Inl (Exception ''not supported''), h))"

definition mem_execAndGet :: "mem_db \<Rightarrow> string \<Rightarrow> fault + int" where
  "mem_execAndGet h query = sql_execAndGet reserved_words (tables h) query"

text \<open>
  The database the examples open: the table \<^verbatim>\<open>archive_file\<close> and a table named
  \<^verbatim>\<open>order\<close>, each with one row whose \<^verbatim>\<open>id\<close> is 42.
\<close>

definition example_tables :: sql_database where
  "example_tables =
     [(''archive_file'', [''id''], [[(''id'', 42)]]),
      (''order'', [''id''], [[(''id'', 42)]])]"

definition mem_handle :: mem_db where
  "mem_handle = \<lparr>in_transaction = False, changes = 0, tables = example_tables\<rparr>"

definition mem_engine :: "mem_db engine" where
  "mem_engine =
     \<lparr>eng_open = (\<lambda>path mode. Inr mem_handle),
      eng_close = (\<lambda>h. None),
      eng_exec = mem_exec,
      eng_execAndGet = mem_execAndGet,
      eng_prepare = (\<lambda>h sql. if sql = [] then Some ''not an error'' else None),
      eng_get_autocommit = (\<lambda>h. if in_transaction h then 0 else 1)\<rparr>"

text \<open>
  The same engine when the read+write open of the file raises after the
  read-only open succeeded (the file went away, or no descriptor is left).
\<close>

definition rw_open_fails_engine :: "mem_db engine" where
  "rw_open_fails_engine =
     mem_engine\<lparr>eng_open :=
       (\<lambda>path mode.
          if mode = OPEN_READWRITE then Inl (Exception ''unable to open database file'')
          else Inr mem_handle)\<rparr>"

text \<open>An open context of thread 1, and its connection.\<close>

definition mem_connection :: "mem_db Database" where
  "mem_connection = \<lparr>db_handle = mem_handle, db_issued = []\<rparr>"

definition open_context :: "mem_db Context" where
  "open_context =
     \<lparr>thread_id = 1, file_path = ''slade.sqlite'', connection_ro = Some mem_connection,
      connection_rw = Some mem_connection, cached_queries = Map.empty\<rparr>"

text \<open>
  A program state: \<^verbatim>\<open>db_global\<close> made on the main thread 1, the contexts at
  addresses 5 and 6 made on thread 2, and nothing registered.
\<close>

definition example_state :: "mem_db state" where
  "example_state =
     \<lparr>contexts = [db_global \<mapsto> open_context, 5 \<mapsto> Context_init 2, 6 \<mapsto> Context_init 2],
      thread_contexts = [],
      logged = []\<rparr>"

text \<open>
  The open context after \<^verbatim>\<open>cacheQuery("q", "SELECT ?", false)\<close> put a statement at
  address 100, the same after the caller bound 7 to its parameter and stepped
  it, and the same after a reset of that.
\<close>

definition cached_context :: "mem_db Context" where
  "cached_context =
     open_context\<lparr>cached_queries := [''q'' \<mapsto> (100, Statement_new ''SELECT ?'' False)]\<rparr>"

definition stepped_context :: "mem_db Context" where
  "stepped_context =
     open_context\<lparr>cached_queries :=
       [''q'' \<mapsto> (100, \<lparr>st_sql = ''SELECT ?'', st_writes = False, st_bindings = [(1, ''7'')],
                         st_has_row = True, st_done = False\<rparr>)]\<rparr>"

definition reset_context :: "mem_db Context" where
  "reset_context =
     open_context\<lparr>cached_queries :=
       [''q'' \<mapsto> (100, \<lparr>st_sql = ''SELECT ?'', st_writes = False, st_bindings = [(1, ''7'')],
                         st_has_row = False, st_done = False\<rparr>)]\<rparr>"

text \<open>The connection after \<^verbatim>\<open>BEGIN\<close> went through it.\<close>

definition begun_connection :: "mem_db Database" where
  "begun_connection =
     \<lparr>db_handle = mem_handle\<lparr>in_transaction := True\<rparr>, db_issued = [''BEGIN'']\<rparr>"

text \<open>
  The open context after \<^verbatim>\<open>exec("DELETE FROM archive_file WHERE id = 42")\<close>, which
  deleted the one row, and after \<^verbatim>\<open>exec("SELECT 1")\<close> then.
\<close>

definition deleted_handle :: mem_db where
  "deleted_handle =
     \<lparr>in_transaction = False, changes = 1,
      tables = [(''archive_file'', [''id''], []), (''order'', [''id''], [[(''id'', 42)]])]\<rparr>"

definition deleted_context :: "mem_db Context" where
  "deleted_context =
     open_context\<lparr>connection_rw :=
       Some \<lparr>db_handle = deleted_handle,
             db_issued = [''DELETE FROM archive_file WHERE id = 42'']\<rparr>\<rparr>"

definition selected_context :: "mem_db Context" where
  "selected_context =
     open_context\<lparr>connection_rw :=
       Some \<lparr>db_handle = deleted_handle,
             db_issued = [''DELETE FROM archive_file WHERE id = 42'', ''SELECT 1'']\<rparr>\<rparr>"

section \<open>Properties\<close>

subsection \<open>The two erase loops\<close>

text \<open>
  Run from the last index, the destructor's loop keeps exactly the entries other
  than \<^verbatim>\<open>this\<close>, in their order. The lemma is stated for a loop that has reached
  index \<open>i\<close>: the entries above \<open>i\<close> are done, those up to \<open>i\<close> are still to filter.
\<close>

lemma destructor_loop_take:
  "nat (i + 1) \<le> length xs \<Longrightarrow>
   destructor_loop this i xs =
     filter (\<lambda>p. p \<noteq> this) (take (nat (i + 1)) xs) @ drop (nat (i + 1)) xs"
proof (induction this i xs rule: destructor_loop.induct)
  case (1 this i xs)
  show ?case
  proof (cases "i \<ge> 0")
    case False
    then show ?thesis by (simp add: destructor_loop.simps[of this i xs])
  next
    case True
    then obtain n where n: "i = int n" using nonneg_int_cases by blast
    from 1(2) n have len: "n < length xs" by simp
    let ?xs' = "if xs ! nat i = this then erase_at (nat i) xs else xs"
    have le': "nat (i - 1 + 1) \<le> length ?xs'"
      using len n by (auto simp: erase_at_def)
    have step: "destructor_loop this i xs = destructor_loop this (i - 1) ?xs'"
      using True by (subst destructor_loop.simps) simp
    have ih: "destructor_loop this (i - 1) ?xs' =
        filter (\<lambda>p. p \<noteq> this) (take (nat (i - 1 + 1)) ?xs') @ drop (nat (i - 1 + 1)) ?xs'"
      using "1.IH"[OF True le'] .
    have tk: "take (Suc n) xs = take n xs @ [xs ! n]"
      using len by (simp add: take_Suc_conv_app_nth)
    show ?thesis
      unfolding step ih using len n
      by (auto simp: erase_at_def tk nat_add_distrib Cons_nth_drop_Suc min_def)
  qed
qed

lemma destructor_loop_filter:
  "destructor_loop this (int (length xs) - 1) xs = filter (\<lambda>p. p \<noteq> this) xs"
  using destructor_loop_take[of "int (length xs) - 1" xs this] by simp

text \<open>
  The loop of \<^verbatim>\<open>deregisterThreadContexts\<close> dereferences every entry; when all
  are live it keeps exactly the entries of the other threads.
\<close>

lemma deregister_loop_take:
  "nat (i + 1) \<le> length xs \<Longrightarrow> \<forall>p \<in> set xs. heap p \<noteq> None \<Longrightarrow>
   deregister_loop heap t i xs =
     Inr (filter (\<lambda>p. \<forall>c. heap p = Some c \<longrightarrow> thread_id c \<noteq> t) (take (nat (i + 1)) xs)
          @ drop (nat (i + 1)) xs)"
proof (induction heap t i xs rule: deregister_loop.induct)
  case (1 heap t i xs)
  show ?case
  proof (cases "i \<ge> 0")
    case False
    then show ?thesis by (simp add: deregister_loop.simps[of heap t i xs])
  next
    case True
    then obtain n where n: "i = int n" using nonneg_int_cases by blast
    from 1(2) n have len: "n < length xs" by simp
    then obtain c where c: "heap (xs ! n) = Some c"
      using 1(3) by (metis nth_mem option.exhaust)
    let ?xs' = "if isForThisThread c t then erase_at (nat i) xs else xs"
    have le': "nat (i - 1 + 1) \<le> length ?xs'"
      using len n by (auto simp: erase_at_def)
    have live': "\<forall>p \<in> set ?xs'. heap p \<noteq> None"
      using 1(3) by (auto simp: erase_at_def dest: in_set_takeD in_set_dropD)
    have step: "deregister_loop heap t i xs = deregister_loop heap t (i - 1) ?xs'"
      using True c n by (subst deregister_loop.simps) simp
    have c': "heap (xs ! nat i) = Some c"
      using c n by simp
    have ih: "deregister_loop heap t (i - 1) ?xs' =
        Inr (filter (\<lambda>p. \<forall>c. heap p = Some c \<longrightarrow> thread_id c \<noteq> t)
               (take (nat (i - 1 + 1)) ?xs')
             @ drop (nat (i - 1 + 1)) ?xs')"
      using "1.IH"[OF True c' le' live'] .
    have tk: "take (Suc n) xs = take n xs @ [xs ! n]"
      using len by (simp add: take_Suc_conv_app_nth)
    show ?thesis
      unfolding step ih using len n c
      by (auto simp: erase_at_def tk nat_add_distrib Cons_nth_drop_Suc min_def
          isForThisThread_def)
  qed
qed

lemma deregister_loop_filter:
  "\<forall>p \<in> set xs. heap p \<noteq> None \<Longrightarrow>
   deregister_loop heap t (int (length xs) - 1) xs =
     Inr (filter (\<lambda>p. \<forall>c. heap p = Some c \<longrightarrow> thread_id c \<noteq> t) xs)"
  using deregister_loop_take[of "int (length xs) - 1" xs heap t] by simp

lemma deregisterThreadContexts_result:
  assumes "registry_live s"
  shows "database_deregisterThreadContexts t s =
           (Inr (),
            s\<lparr>thread_contexts :=
                filter (\<lambda>p. \<forall>c. contexts s p = Some c \<longrightarrow> thread_id c \<noteq> t)
                  (thread_contexts s)\<rparr>)"
proof -
  have "\<forall>p \<in> set (thread_contexts s). contexts s p \<noteq> None"
    using assms by (simp add: registry_live_def)
  then show ?thesis
    by (simp add: database_deregisterThreadContexts_def deregister_loop_filter)
qed

subsection \<open>The registry stays live\<close>

lemma registry_live_register:
  "registry_live s \<Longrightarrow> contexts s p \<noteq> None \<Longrightarrow>
   registry_live (database_registerThreadContext p s)"
  by (simp add: registry_live_def database_registerThreadContext_def)

lemma registry_live_deregister:
  "registry_live s \<Longrightarrow> registry_live (snd (database_deregisterThreadContexts t s))"
  by (simp add: deregisterThreadContexts_result) (simp add: registry_live_def)

lemma registry_live_create:
  "registry_live s \<Longrightarrow> registry_live (snd (Context_create eng addr t path s))"
  by (auto simp: Context_create_def registry_live_def split: prod.splits sum.splits)

lemma Context_destroy_result:
  assumes "contexts s this = Some c"
  shows "Context_destroy eng this s =
           (Inr (),
            s\<lparr>contexts := (contexts s)(this := None),
               thread_contexts := filter (\<lambda>p. p \<noteq> this) (thread_contexts s),
               logged := logged s @ snd (snd (Context_close eng c))\<rparr>)"
  using assms by (simp add: Context_destroy_def destructor_loop_filter split: prod.splits)

subsection \<open>The cache is empty while the context is closed\<close>

lemma cache_inv_init: "cache_inv (Context_init t)"
  by (simp add: cache_inv_def Context_init_def)

lemma Context_close_cache:
  "cache_inv c \<Longrightarrow> cached_queries (fst (snd (Context_close eng c))) = Map.empty"
  by (auto simp: cache_inv_def Context_close_def split: option.splits)

lemma cache_inv_close: "cache_inv c \<Longrightarrow> cache_inv (fst (snd (Context_close eng c)))"
  by (simp add: cache_inv_def Context_close_cache)

lemma cache_inv_open: "cache_inv c \<Longrightarrow> cache_inv (fst (snd (Context_open eng c path)))"
proof -
  assume inv: "cache_inv c"
  obtain closed c1 lg where cl: "Context_close eng c = (closed, c1, lg)"
    by (cases "Context_close eng c") auto
  with Context_close_cache[OF inv, of eng] have "cached_queries c1 = Map.empty"
    by simp
  then show ?thesis
    using cl by (simp add: Context_open_def cache_inv_def split: sum.splits)
qed

lemma cache_inv_new: "Context_new eng t path = (Inr c, lg) \<Longrightarrow> cache_inv c"
proof (cases "path = []")
  case True
  assume "Context_new eng t path = (Inr c, lg)"
  with True show ?thesis
    by (auto simp: Context_new_def cache_inv_init)
next
  case False
  assume new: "Context_new eng t path = (Inr c, lg)"
  obtain r c' lg' where op: "Context_open eng (Context_init t) path = (r, c', lg')"
    by (cases "Context_open eng (Context_init t) path") auto
  with new False have "c = c'"
    by (auto simp: Context_new_def split: sum.splits)
  moreover have "cache_inv c'"
    using cache_inv_open[OF cache_inv_init, of eng t path] op by simp
  ultimately show ?thesis by simp
qed

lemma cache_inv_cachedQuery:
  "cache_inv c \<Longrightarrow> cache_inv (snd (Context_cachedQuery c ident))"
  by (auto simp: cache_inv_def Context_cachedQuery_def split: option.splits)

lemma cache_inv_cacheQuery:
  "cache_inv c \<Longrightarrow> cache_inv (snd (Context_cacheQuery eng fresh c ident sql writes))"
  by (auto simp: cache_inv_def Context_cacheQuery_def split: option.splits)

lemma cache_inv_exec: "cache_inv c \<Longrightarrow> cache_inv (snd (Context_exec eng c query))"
  by (auto simp: cache_inv_def Context_exec_def split: option.splits prod.splits)

lemma Transaction_new_keeps_null:
  "(snd (Transaction_new eng connection flag) = None) = (connection = None)"
  by (auto simp: Transaction_new_def Transaction_beginIfNoActiveTransaction_def
      database_isTransactionActive_def Transaction_begin_def
      split: option.splits sum.splits prod.splits)

lemma cache_inv_beginTransaction:
  "cache_inv c \<Longrightarrow> cache_inv (snd (Context_beginTransaction eng c write))"
  using Transaction_new_keeps_null[of eng "connection_ro c" True]
  by (auto simp: cache_inv_def Context_beginTransaction_def split: prod.splits)

text \<open>A successful \<^verbatim>\<open>open\<close> leaves both connections present.\<close>

lemma Context_open_true:
  "Context_open eng c path = (Inr True, c', lg) \<Longrightarrow>
   connection_ro c' \<noteq> None \<and> connection_rw c' \<noteq> None \<and> file_path c' = path"
  by (auto simp: Context_open_def split: prod.splits if_splits sum.splits)

lemma open_context_is_opened:
  "Context_open mem_engine (Context_init 1) ''slade.sqlite'' = (Inr True, open_context, [])"
  by (simp add: Context_open_def Context_close_def Context_init_def Database_new_def
      mem_engine_def open_context_def mem_connection_def)

subsection \<open>Resolution of the global context\<close>

lemma find_thread_context_skip:
  assumes "\<forall>q \<in> set before. \<exists>c. heap q = Some c \<and> thread_id c \<noteq> t"
  shows "find_thread_context heap t (before @ rest) = find_thread_context heap t rest"
  using assms by (induction before) (auto simp: isForThisThread_def)

lemma global_main_thread:
  "database_global main_thread main_thread s = (Inr db_global, s)"
  by (simp add: database_global_def)

lemma global_first_match:
  assumes "this_thread \<noteq> main_thread"
    and "thread_contexts s = before @ p # after"
    and "\<forall>q \<in> set before. \<exists>c. contexts s q = Some c \<and> thread_id c \<noteq> this_thread"
    and "contexts s p = Some c" and "thread_id c = this_thread"
  shows "database_global main_thread this_thread s = (Inr p, s)"
proof -
  have "find_thread_context (contexts s) this_thread (thread_contexts s) =
      find_thread_context (contexts s) this_thread (p # after)"
    using assms(2) find_thread_context_skip[OF assms(3), of "p # after"] by simp
  also have "\<dots> = Inr (Some p)"
    using assms(4,5) by (simp add: isForThisThread_def)
  finally show ?thesis
    using assms(1) by (simp add: database_global_def)
qed

lemma global_no_match:
  assumes "this_thread \<noteq> main_thread"
    and "\<forall>q \<in> set (thread_contexts s). \<exists>c. contexts s q = Some c \<and> thread_id c \<noteq> this_thread"
  shows "database_global main_thread this_thread s =
           (Inr db_global, s\<lparr>logged := logged s @ [global_warning]\<rparr>)"
proof -
  have "find_thread_context (contexts s) this_thread (thread_contexts s) = Inr None"
    using find_thread_context_skip[OF assms(2), of "[]"] by simp
  then show ?thesis
    using assms(1) by (simp add: database_global_def)
qed

text \<open>
  Claim C1. A call of \<^verbatim>\<open>database::global()\<close> on the main thread returns the main
  context at once: the result is the same whatever the registry holds, and the
  state is unchanged. On another thread, when some registered context was made
  on the calling thread, the first such entry in the order of the registry is
  returned (the entries \<open>before\<close> it belong to other threads). When none was,
  the warning is logged and the main context is returned. The entries that the
  loop dereferences are taken to be live, which the destructor sees to.
\<close>

theorem global_resolution:
  "(this_thread = main_thread \<longrightarrow>
      database_global main_thread this_thread s = (Inr db_global, s)) \<and>
   (this_thread \<noteq> main_thread \<and> thread_contexts s = before @ p # after \<and>
    (\<forall>q \<in> set before. \<exists>c. contexts s q = Some c \<and> thread_id c \<noteq> this_thread) \<and>
    (\<exists>c. contexts s p = Some c \<and> thread_id c = this_thread) \<longrightarrow>
      database_global main_thread this_thread s = (Inr p, s)) \<and>
   (this_thread \<noteq> main_thread \<and>
    (\<forall>q \<in> set (thread_contexts s).
        \<exists>c. contexts s q = Some c \<and> thread_id c \<noteq> this_thread) \<longrightarrow>
      database_global main_thread this_thread s =
        (Inr db_global, s\<lparr>logged := logged s @ [global_warning]\<rparr>))"
  using global_main_thread[of main_thread s]
    global_first_match[of this_thread main_thread s before p after]
    global_no_match[of this_thread main_thread s]
  by blast

theorem global_resolution_witness:
  "database_global 1 1 (database_registerThreadContext 5 example_state) =
     (Inr db_global, database_registerThreadContext 5 example_state) \<and>
   database_global 1 2 (database_registerThreadContext 5 example_state) =
     (Inr 5, database_registerThreadContext 5 example_state) \<and>
   database_global 1 3 (database_registerThreadContext 5 example_state) =
     (Inr db_global,
      (database_registerThreadContext 5 example_state)\<lparr>logged := [global_warning]\<rparr>)"
  using global_resolution[of 1 1 "database_registerThreadContext 5 example_state" "[]" 5 "[]"]
    global_resolution[of 2 1 "database_registerThreadContext 5 example_state" "[]" 5 "[]"]
    global_resolution[of 3 1 "database_registerThreadContext 5 example_state" "[]" 5 "[]"]
  by (simp add: database_registerThreadContext_def example_state_def Context_init_def)

text \<open>
  The round trip of section 8 of the specification: after a thread other than
  the main one registers a context it made, and no earlier entry is its own,
  resolution on that thread returns the context; after the thread deregisters,
  resolution falls back to the main context with the warning.
\<close>

lemma register_then_global:
  assumes "this_thread \<noteq> main_thread"
    and "\<forall>q \<in> set (thread_contexts s). \<exists>c. contexts s q = Some c \<and> thread_id c \<noteq> this_thread"
    and "contexts s p = Some c" and "thread_id c = this_thread"
  shows "database_global main_thread this_thread (database_registerThreadContext p s) =
           (Inr p, database_registerThreadContext p s)"
  using assms
    global_first_match[of this_thread main_thread "database_registerThreadContext p s"
      "thread_contexts s" p "[]" c]
  by (simp add: database_registerThreadContext_def)

lemma deregister_then_global:
  assumes "this_thread \<noteq> main_thread" and "registry_live s"
    and "database_deregisterThreadContexts this_thread s = (r, s')"
  shows "r = Inr () \<and>
         database_global main_thread this_thread s' =
           (Inr db_global, s'\<lparr>logged := logged s' @ [global_warning]\<rparr>)"
proof -
  have s': "s' = s\<lparr>thread_contexts :=
      filter (\<lambda>p. \<forall>c. contexts s p = Some c \<longrightarrow> thread_id c \<noteq> this_thread)
        (thread_contexts s)\<rparr>" and r: "r = Inr ()"
    using deregisterThreadContexts_result[OF assms(2), of this_thread] assms(3) by simp_all
  have "\<forall>q \<in> set (thread_contexts s').
      \<exists>c. contexts s' q = Some c \<and> thread_id c \<noteq> this_thread"
    using assms(2) unfolding s' by (auto simp: registry_live_def)
  from global_no_match[OF assms(1) this] r show ?thesis by simp
qed

text \<open>
  Claim C5. Registration appends with no duplicate check and resolution returns
  the first match, so after a thread registers a second context it is the
  earlier registration that is resolved: here thread 2 registers the context at
  address 5 and then the one at address 6, both its own, and
  \<^verbatim>\<open>database::global()\<close> on thread 2 returns the context at 5. The later
  registration is kept in the registry and does not take precedence.
\<close>

theorem reregistration_first_entry_wins:
  "thread_contexts
     (database_registerThreadContext 6 (database_registerThreadContext 5 example_state)) =
     [5, 6] \<and>
   database_global 1 2
     (database_registerThreadContext 6 (database_registerThreadContext 5 example_state)) =
     (Inr 5, database_registerThreadContext 6 (database_registerThreadContext 5 example_state))"
  by (simp add: database_registerThreadContext_def example_state_def database_global_def
      Context_init_def isForThisThread_def)

text \<open>
  The same for every state: when a thread registers \<open>a\<close> and then \<open>b\<close>, the entry
  for \<open>b\<close> is added behind the one for \<open>a\<close>, and resolution returns \<open>a\<close>.
\<close>

lemma reregistration_earlier_shadows_later:
  assumes "this_thread \<noteq> main_thread"
    and "\<forall>q \<in> set (thread_contexts s). \<exists>c. contexts s q = Some c \<and> thread_id c \<noteq> this_thread"
    and "contexts s a = Some c" and "thread_id c = this_thread"
  shows "thread_contexts (database_registerThreadContext b (database_registerThreadContext a s))
           = thread_contexts s @ [a, b] \<and>
         fst (database_global main_thread this_thread
               (database_registerThreadContext b (database_registerThreadContext a s))) = Inr a"
  using assms
    global_first_match[of this_thread main_thread
      "database_registerThreadContext b (database_registerThreadContext a s)"
      "thread_contexts s" a "[b]" c]
  by (simp add: database_registerThreadContext_def)

subsection \<open>The statement cache\<close>

text \<open>
  What a reset keeps and what it clears, and that a statement which was only
  stepped since it was handed out is, after a reset, as it was handed out.
\<close>

lemma tryReset_fields:
  "not_yet_stepped (tryReset st) \<and> st_sql (tryReset st) = st_sql st \<and>
   st_writes (tryReset st) = st_writes st \<and> st_bindings (tryReset st) = st_bindings st"
  by (simp add: tryReset_def not_yet_stepped_def)

lemma tryReset_back:
  assumes "not_yet_stepped st1" and "st_sql st = st_sql st1" and "st_writes st = st_writes st1"
    and "st_bindings st = st_bindings st1"
  shows "tryReset st = st1"
  using assms by (cases st, cases st1) (simp add: tryReset_def not_yet_stepped_def)

lemma cacheQuery_first:
  assumes first: "Context_cacheQuery eng fresh c ident sql writes = (Inr r, c1)"
    and opened: "connection_ro c \<noteq> None"
  shows "r = Some (case cached_queries c ident of None \<Rightarrow> fresh | Some (q, st0) \<Rightarrow> q) \<and>
         c1 = c\<lparr>cached_queries := (cached_queries c)(ident \<mapsto>
                  (case cached_queries c ident of None \<Rightarrow> fresh | Some (q, st0) \<Rightarrow> q,
                   case cached_queries c ident of
                     None \<Rightarrow> Statement_new sql writes
                   | Some (q, st0) \<Rightarrow> tryReset st0))\<rparr>"
  using assms
  by (auto simp: Context_cacheQuery_def split: option.splits if_splits)

lemma cacheQuery_hit:
  "cached_queries c ident = Some (p, st) \<Longrightarrow>
   Context_cacheQuery eng fresh c ident sql writes =
     (Inr (Some p), c\<lparr>cached_queries := (cached_queries c)(ident \<mapsto> (p, tryReset st))\<rparr>)"
  by (simp add: Context_cacheQuery_def)

text \<open>
  Claim C2. On a context with an open connection, when
  \<^verbatim>\<open>cacheQuery(id, sql, writes)\<close> returns, it returns the statement handle \<open>p\<close>
  that the cache holds under \<open>id\<close> (the one that was there, or else the new one),
  and the statement there, \<open>st1\<close>, is not yet stepped. Whatever the caller then
  does with the statement (\<open>c2\<close> is any later context whose cache still holds
  that handle under \<open>id\<close>, with the statement \<open>st\<close> in any state), a further
  \<^verbatim>\<open>cacheQuery\<close> with the same \<open>id\<close> returns the same handle \<open>p\<close> and changes only
  the statement there, which it resets: the statement is not yet stepped, and
  its text, its connection and its bound values are as they were. If the
  caller only stepped it, it is again exactly the statement \<open>st1\<close> that the first
  call handed out.
\<close>

theorem cacheQuery_twice_same_handle:
  assumes first: "Context_cacheQuery eng fresh c ident sql writes = (Inr r, c1)"
    and opened: "connection_ro c \<noteq> None"
    and between:
      "map_option fst (cached_queries c2 ident) = map_option fst (cached_queries c1 ident)"
  shows "\<exists>p st1 st.
      r = Some p \<and>
      p = (case cached_queries c ident of None \<Rightarrow> fresh | Some (q, st0) \<Rightarrow> q) \<and>
      st1 = (case cached_queries c ident of
               None \<Rightarrow> Statement_new sql writes
             | Some (q, st0) \<Rightarrow> tryReset st0) \<and>
      c1 = c\<lparr>cached_queries := (cached_queries c)(ident \<mapsto> (p, st1))\<rparr> \<and>
      not_yet_stepped st1 \<and>
      cached_queries c2 ident = Some (p, st) \<and>
      Context_cacheQuery eng fresh' c2 ident sql' writes' =
        (Inr (Some p), c2\<lparr>cached_queries := (cached_queries c2)(ident \<mapsto> (p, tryReset st))\<rparr>) \<and>
      not_yet_stepped (tryReset st) \<and> st_sql (tryReset st) = st_sql st \<and>
      st_writes (tryReset st) = st_writes st \<and> st_bindings (tryReset st) = st_bindings st \<and>
      (st_sql st = st_sql st1 \<and> st_writes st = st_writes st1 \<and>
       st_bindings st = st_bindings st1 \<longrightarrow> tryReset st = st1)"
proof -
  define p where "p = (case cached_queries c ident of None \<Rightarrow> fresh | Some (q, st0) \<Rightarrow> q)"
  define st1 where "st1 = (case cached_queries c ident of
               None \<Rightarrow> Statement_new sql writes
             | Some (q, st0) \<Rightarrow> tryReset st0)"
  have r: "r = Some p" and c1: "c1 = c\<lparr>cached_queries := (cached_queries c)(ident \<mapsto> (p, st1))\<rparr>"
    using cacheQuery_first[OF first opened] by (simp_all add: p_def st1_def)
  have n1: "not_yet_stepped st1"
    by (simp add: st1_def tryReset_def not_yet_stepped_def Statement_new_def
        split: option.splits)
  have "map_option fst (cached_queries c2 ident) = Some p"
    using between c1 by simp
  then obtain st where c2: "cached_queries c2 ident = Some (p, st)"
    by (cases "cached_queries c2 ident") auto
  have restored: "st_sql st = st_sql st1 \<and> st_writes st = st_writes st1 \<and>
       st_bindings st = st_bindings st1 \<longrightarrow> tryReset st = st1"
    using tryReset_back[OF n1, of st] by simp
  show ?thesis
    using r c1 n1 c2 cacheQuery_hit[OF c2, of eng fresh' sql' writes'] tryReset_fields[of st]
      restored p_def st1_def
    by blast
qed

theorem cacheQuery_twice_same_handle_witness:
  "connection_ro open_context \<noteq> None \<and>
   Context_cacheQuery mem_engine 100 open_context ''q'' ''SELECT ?'' False =
     (Inr (Some 100), cached_context) \<and>
   Context_cacheQuery mem_engine 200 stepped_context ''q'' ''SELECT 2'' True =
     (Inr (Some 100), reset_context) \<and>
   Context_cacheQuery mem_engine 200
     (open_context\<lparr>cached_queries :=
        [''q'' \<mapsto> (100, (Statement_new ''SELECT ?'' False)\<lparr>st_done := True\<rparr>)]\<rparr>)
     ''q'' ''SELECT 2'' True =
     (Inr (Some 100), cached_context)"
proof -
  have first: "Context_cacheQuery mem_engine 100 open_context ''q'' ''SELECT ?'' False =
      (Inr (Some 100), cached_context)"
    by (simp add: Context_cacheQuery_def open_context_def cached_context_def mem_engine_def
        mem_connection_def)
  have opened: "connection_ro open_context \<noteq> None"
    by (simp add: open_context_def)
  have between: "map_option fst (cached_queries stepped_context ''q'') =
      map_option fst (cached_queries cached_context ''q'')"
    by (simp add: stepped_context_def cached_context_def)
  have between': "map_option fst (cached_queries (open_context\<lparr>cached_queries :=
        [''q'' \<mapsto> (100, (Statement_new ''SELECT ?'' False)\<lparr>st_done := True\<rparr>)]\<rparr>) ''q'') =
      map_option fst (cached_queries cached_context ''q'')"
    by (simp add: cached_context_def)
  show ?thesis
    using first opened
      cacheQuery_twice_same_handle[OF first opened between, of 200 "''SELECT 2''" True]
      cacheQuery_twice_same_handle[OF first opened between', of 200 "''SELECT 2''" True]
    by (auto simp: stepped_context_def reset_context_def cached_context_def open_context_def
        tryReset_def Statement_new_def)
qed

text \<open>
  Claim C4. After \<^verbatim>\<open>close()\<close>, \<^verbatim>\<open>cachedQuery(id)\<close> returns "none" for every id,
  so for every id that was cached before. The cache is emptied before the
  connections are released, so this holds whether or not the release succeeds
  (\<open>closed\<close> is what \<^verbatim>\<open>close()\<close> returns); for a context that was already closed
  it holds because such a context caches nothing (\<open>cache_inv\<close>, which every
  operation keeps).
\<close>

theorem close_clears_cache:
  assumes "cache_inv c" and "Context_close eng c = (closed, c', lg)"
  shows "Context_cachedQuery c' ident = (None, c')"
proof -
  have "cached_queries c' = Map.empty"
    using Context_close_cache[OF assms(1), of eng] assms(2) by simp
  then show ?thesis
    by (simp add: Context_cachedQuery_def)
qed

theorem close_clears_cache_witness:
  "cache_inv cached_context \<and>
   Context_cachedQuery cached_context ''q'' = (Some 100, cached_context) \<and>
   Context_close mem_engine cached_context = (True, Context_init 1, []) \<and>
   Context_cachedQuery (Context_init 1 :: mem_db Context) ''q'' = (None, Context_init 1)"
proof -
  have inv: "cache_inv cached_context"
    by (simp add: cache_inv_def cached_context_def open_context_def)
  have cl: "Context_close mem_engine cached_context = (True, Context_init 1, [])"
    by (simp add: Context_close_def cached_context_def open_context_def Context_init_def
        mem_engine_def mem_connection_def)
  have hit: "Context_cachedQuery cached_context ''q'' = (Some 100, cached_context)"
    by (simp add: Context_cachedQuery_def cached_context_def open_context_def
        tryReset_def Statement_new_def)
  show ?thesis
    using inv cl hit close_clears_cache[OF inv cl, of "''q''"] by simp
qed

subsection \<open>Opening and closing\<close>

text \<open>
  Where the two connections stay together: a new context has neither, a
  \<^verbatim>\<open>close\<close> that succeeds leaves neither, and the cache functions, \<^verbatim>\<open>exec\<close> and
  \<^verbatim>\<open>beginTransaction\<close> change neither pointer. After a \<^verbatim>\<open>close\<close> that succeeded,
  \<^verbatim>\<open>open\<close> separates them in exactly one case: the read-only connection opens
  and the read+write one raises.
\<close>

lemma both_or_neither_init: "both_or_neither (Context_init t)"
  by (simp add: both_or_neither_def Context_init_def)

lemma both_or_neither_close:
  "both_or_neither c \<Longrightarrow> Context_close eng c = (True, c', lg) \<Longrightarrow>
   connection_ro c' = None \<and> connection_rw c' = None"
  by (auto simp: both_or_neither_def Context_close_def split: option.splits)

lemma both_or_neither_cachedQuery:
  "both_or_neither c \<Longrightarrow> both_or_neither (snd (Context_cachedQuery c ident))"
  by (auto simp: both_or_neither_def Context_cachedQuery_def split: option.splits)

lemma both_or_neither_cacheQuery:
  "both_or_neither c \<Longrightarrow>
   both_or_neither (snd (Context_cacheQuery eng fresh c ident sql writes))"
  by (auto simp: both_or_neither_def Context_cacheQuery_def split: option.splits)

lemma both_or_neither_exec:
  "both_or_neither c \<Longrightarrow> both_or_neither (snd (Context_exec eng c query))"
  by (auto simp: both_or_neither_def Context_exec_def split: option.splits prod.splits)

lemma both_or_neither_beginTransaction:
  "both_or_neither c \<Longrightarrow> both_or_neither (snd (Context_beginTransaction eng c write))"
  using Transaction_new_keeps_null[of eng "connection_ro c" True]
    Transaction_new_keeps_null[of eng "connection_rw c" True]
  by (auto simp: both_or_neither_def Context_beginTransaction_def split: prod.splits)

lemma open_breaks_both_or_neither:
  assumes "both_or_neither c" and "Context_close eng c = (True, c1, lg)"
  shows "(\<not> both_or_neither (fst (snd (Context_open eng c path)))) =
         (\<exists>ro e. Database_new eng path OPEN_READONLY = Inr ro \<and>
                 Database_new eng path OPEN_READWRITE = Inl e)"
  using both_or_neither_close[OF assms] assms(2)
  by (auto simp: Context_open_def both_or_neither_def split: sum.splits)

text \<open>
  Claim C6. The two connections are not always both present or both absent:
  when the read-only connection opens and the constructor of the read+write
  connection raises, \<^verbatim>\<open>open\<close> is left by the exception with \<^verbatim>\<open>connection_ro_\<close>
  assigned and \<^verbatim>\<open>connection_rw_\<close> still null.
\<close>

theorem open_leaves_one_connection:
  "Context_open rw_open_fails_engine (Context_init 1) ''slade.sqlite'' =
     (Inl (Exception ''unable to open database file''),
      (Context_init 1)\<lparr>file_path := ''slade.sqlite'', connection_ro := Some mem_connection\<rparr>,
      []) \<and>
   \<not> both_or_neither
      ((Context_init 1)\<lparr>file_path := ''slade.sqlite'', connection_ro := Some mem_connection\<rparr>
         :: mem_db Context)"
  by (simp add: Context_open_def Context_close_def Context_init_def Database_new_def
      rw_open_fails_engine_def mem_engine_def mem_connection_def both_or_neither_def)

text \<open>
  In that state \<^verbatim>\<open>exec\<close> does nothing and returns 0, and \<^verbatim>\<open>cacheQuery\<close> for a
  writing statement dereferences the null \<^verbatim>\<open>connection_rw_\<close>: the rest of the
  class takes the two pointers to be null together.
\<close>

lemma one_connection_cacheQuery:
  "connection_ro c \<noteq> None \<Longrightarrow> connection_rw c = None \<Longrightarrow> cached_queries c ident = None \<Longrightarrow>
   Context_cacheQuery eng fresh c ident sql True = (Inl NullDereference, c)"
  by (auto simp: Context_cacheQuery_def)

subsection \<open>Statements without a cache\<close>

lemma Context_exec_null:
  "connection_rw c = None \<Longrightarrow> Context_exec eng c query = (Inr 0, c)"
  by (simp add: Context_exec_def)

lemma Context_exec_connected:
  "connection_rw c = Some rw \<Longrightarrow>
   fst (Context_exec eng c query) = fst (eng_exec eng (db_handle rw) query)"
  by (simp add: Context_exec_def Database_exec_def split: prod.splits)

text \<open>
  Claim C7. Without a read+write connection \<^verbatim>\<open>exec(sql)\<close> returns 0 and raises
  nothing (\<open>Context_exec_null\<close>). With one it returns what
  \<^verbatim>\<open>SQLite::Database::exec\<close> returns, and that is not always the number of rows
  the statement modified: here \<^verbatim>\<open>exec("DELETE FROM archive_file WHERE id = 42")\<close>
  deletes one row and returns 1, and \<^verbatim>\<open>exec("SELECT 1")\<close> after it, which leaves
  the tables as they are, returns 1 again, the count of the \<^verbatim>\<open>DELETE\<close>.
\<close>

theorem exec_returns_earlier_count:
  "Context_exec mem_engine open_context ''DELETE FROM archive_file WHERE id = 42'' =
     (Inr 1, deleted_context) \<and>
   Context_exec mem_engine deleted_context ''SELECT 1'' = (Inr 1, selected_context) \<and>
   map_option (\<lambda>d. tables (db_handle d)) (connection_rw selected_context) =
     map_option (\<lambda>d. tables (db_handle d)) (connection_rw deleted_context)"
  by (simp add: Context_exec_def Database_exec_def mem_engine_def mem_exec_def
      open_context_def mem_connection_def mem_handle_def example_tables_def
      deleted_context_def selected_context_def deleted_handle_def count_rows_def
      delete_rows_def)

subsection \<open>The query of rowIdExists, written and read\<close>


























text \<open>
  Claim C10. On a closed context (both connections absent) \<^verbatim>\<open>rowIdExists\<close> and
  \<^verbatim>\<open>beginTransaction\<close>, for either connection, dereference a null pointer,
  whereas \<^verbatim>\<open>exec\<close> has a branch for the closed state and returns 0: the first
  two need an open context.
\<close>

theorem closed_context_dereferences:
  assumes "connection_ro c = None" and "connection_rw c = None"
  shows "Context_rowIdExists eng c table_name ident id_col = Inl NullDereference \<and>
         Context_beginTransaction eng c write = (Inl NullDereference, c) \<and>
         Context_exec eng c query = (Inr 0, c)"
  using assms
  by (simp add: Context_rowIdExists_def Context_beginTransaction_def Transaction_new_def
      Transaction_beginIfNoActiveTransaction_def database_isTransactionActive_def
      Context_exec_def)

theorem closed_context_dereferences_witness:
  "connection_ro (Context_init 1 :: mem_db Context) = None \<and>
   connection_rw (Context_init 1 :: mem_db Context) = None \<and>
   Context_rowIdExists mem_engine (Context_init 1) ''archive_file'' 42 ''id'' =
     Inl NullDereference \<and>
   Context_beginTransaction mem_engine (Context_init 1) True =
     (Inl NullDereference, Context_init 1) \<and>
   Context_beginTransaction mem_engine (Context_init 1) False =
     (Inl NullDereference, Context_init 1) \<and>
   Context_exec mem_engine (Context_init 1) ''BEGIN'' = (Inr 0, Context_init 1)"
proof -
  have ro: "connection_ro (Context_init 1 :: mem_db Context) = None"
    and rw: "connection_rw (Context_init 1 :: mem_db Context) = None"
    by (simp_all add: Context_init_def)
  show ?thesis
    using ro rw
      closed_context_dereferences[OF ro rw, of mem_engine "''archive_file''" 42 "''id''" True
        "''BEGIN''"]
      closed_context_dereferences[OF ro rw, of mem_engine "''archive_file''" 42 "''id''" False
        "''BEGIN''"]
    by simp
qed

subsection \<open>Transactions\<close>

text \<open>
  Claim C3. When the connection reports an active transaction (it is not in
  autocommit mode), \<^verbatim>\<open>beginIfNoActiveTransaction\<close>, and with it the construction
  of a guard, sends nothing to the connection (no \<^verbatim>\<open>BEGIN\<close>: the connection and
  the list of statements issued through it are unchanged) and raises nothing.
  The guard that was constructed is \<^verbatim>\<open>ACTIVE\<close>: it joined the transaction.
  When no transaction is active it issues \<^verbatim>\<open>BEGIN\<close>; where the engine accepts
  that and leaves autocommit mode, the guard is \<^verbatim>\<open>ACTIVE\<close> and the connection
  reports an active transaction.
\<close>

theorem begin_if_no_active_transaction:
  "(eng_get_autocommit eng (db_handle d) = 0 \<longrightarrow>
      Transaction_beginIfNoActiveTransaction eng tx (Some d) = (Inr (), tx, Some d) \<and>
      Transaction_new eng (Some d) True = (Inr \<lparr>tx_state = ACTIVE\<rparr>, Some d)) \<and>
   (eng_get_autocommit eng (db_handle d) \<noteq> 0 \<and>
    eng_exec eng (db_handle d) ''BEGIN'' = (Inr n, h) \<and> eng_get_autocommit eng h = 0 \<longrightarrow>
      Transaction_beginIfNoActiveTransaction eng tx (Some d) =
        (Inr (), tx\<lparr>tx_state := ACTIVE\<rparr>,
         Some \<lparr>db_handle = h, db_issued = db_issued d @ [''BEGIN'']\<rparr>) \<and>
      Transaction_new eng (Some d) True =
        (Inr \<lparr>tx_state = ACTIVE\<rparr>,
         Some \<lparr>db_handle = h, db_issued = db_issued d @ [''BEGIN'']\<rparr>) \<and>
      database_isTransactionActive eng
        (Some \<lparr>db_handle = h, db_issued = db_issued d @ [''BEGIN'']\<rparr>) = Inr True)"
  by (simp add: Transaction_beginIfNoActiveTransaction_def database_isTransactionActive_def
      Transaction_begin_def Transaction_new_def Database_exec_def)

theorem begin_if_no_active_transaction_witness:
  "database_isTransactionActive mem_engine (Some mem_connection) = Inr False \<and>
   Transaction_new mem_engine (Some mem_connection) True =
     (Inr \<lparr>tx_state = ACTIVE\<rparr>, Some begun_connection) \<and>
   database_isTransactionActive mem_engine (Some begun_connection) = Inr True \<and>
   Transaction_new mem_engine (Some begun_connection) True =
      (Inr \<lparr>tx_state = ACTIVE\<rparr>, Some begun_connection) \<and>
   fst (Database_exec mem_engine begun_connection ''BEGIN'') =
     Inl (Exception ''cannot start a transaction within a transaction'')"
  using begin_if_no_active_transaction[where eng = mem_engine and d = mem_connection
      and n = 0 and h = "mem_handle\<lparr>in_transaction := True\<rparr>"
      and tx = "\<lparr>tx_state = INACTIVE\<rparr>"]
    begin_if_no_active_transaction[where eng = mem_engine and d = begun_connection
      and n = 0 and h = "mem_handle\<lparr>in_transaction := True\<rparr>"
      and tx = "\<lparr>tx_state = INACTIVE\<rparr>"]
  by (simp add: mem_engine_def mem_connection_def begun_connection_def mem_exec_def
      mem_handle_def database_isTransactionActive_def Database_exec_def)

subsection \<open>Destruction\<close>

text \<open>
  Claim C9. Destroying a live context removes every entry of the registry that
  refers to it, and only those: afterwards its address is not in the registry,
  the other entries are as they were, and a registry whose entries were all
  live still has all its entries live, so no entry points to a destroyed
  context.
\<close>

theorem destroy_removes_registry_entries:
  assumes "contexts s this = Some c" and "Context_destroy eng this s = (r, s')"
  shows "r = Inr () \<and> contexts s' this = None \<and> this \<notin> set (thread_contexts s') \<and>
         thread_contexts s' = filter (\<lambda>p. p \<noteq> this) (thread_contexts s) \<and>
         (registry_live s \<longrightarrow> registry_live s')"
  using Context_destroy_result[OF assms(1), of eng] assms(2)
  by (auto simp: registry_live_def)

theorem destroy_removes_registry_entries_witness:
  "registry_live (database_registerThreadContext 5 example_state) \<and>
   thread_contexts (database_registerThreadContext 5 example_state) = [5] \<and>
   Context_destroy mem_engine 5 (database_registerThreadContext 5 example_state) =
     (Inr (), example_state\<lparr>contexts := (contexts example_state)(5 := None)\<rparr>) \<and>
   registry_live (example_state\<lparr>contexts := (contexts example_state)(5 := None)\<rparr>)"
proof -
  have live: "contexts (database_registerThreadContext 5 example_state) 5 =
      Some (Context_init 2)"
    by (simp add: database_registerThreadContext_def example_state_def)
  have run: "Context_destroy mem_engine 5 (database_registerThreadContext 5 example_state) =
     (Inr (), example_state\<lparr>contexts := (contexts example_state)(5 := None)\<rparr>)"
    by (simp add: Context_destroy_def Context_close_def Context_init_def
        database_registerThreadContext_def example_state_def destructor_loop.simps[of _ 0]
        destructor_loop.simps[of _ "- 1"] erase_at_def)
  have before: "registry_live (database_registerThreadContext 5 example_state)"
    by (simp add: registry_live_def database_registerThreadContext_def example_state_def)
  have entries: "thread_contexts (database_registerThreadContext 5 example_state) = [5]"
    by (simp add: database_registerThreadContext_def example_state_def)
  show ?thesis
    using destroy_removes_registry_entries[OF live run] before run entries by simp
qed

end
